theory Spec2Isabelle
  imports Complex_Main "HOL-Library.Word"
begin

unbundle bit_operations_syntax

section \<open>The skate dryer firmware (main.c) as state-passing functions\<close>

subsection \<open>Configuration constants\<close>

text \<open>
  The macros of main.c. Integer macros are C \<open>int\<close> literals and are kept as \<open>int\<close>;
  \<open>PRESCALE\<close> is the floating point literal \<open>128.0\<close>. Floating point values are
  idealised as reals: every value that occurs (100, 200, 5 and their quotients by the
  power of two 128) is represented exactly in binary floating point.
\<close>

definition PRESCALE :: real where "PRESCALE = 128"
definition UI_MS :: int where "UI_MS = 200"
definition DEBOUNCE_MS :: int where "DEBOUNCE_MS = 100"
definition IDLE_ITERATIONS :: int where "IDLE_ITERATIONS = 255"
definition LED_PIN :: nat where "LED_PIN = 0"
definition FAN_PIN :: nat where "FAN_PIN = 1"
definition TIMER_UI_COUNT :: int where "TIMER_UI_COUNT = 1"
definition RUN_TIMERS_INIT :: int where "RUN_TIMERS_INIT = 20"
definition RUN_TIMERS_MULTIPLIER :: int where "RUN_TIMERS_MULTIPLIER = 20"
definition RUN_LEVELS :: int where "RUN_LEVELS = 3"
definition MIN_DELAY_MS :: int where "MIN_DELAY_MS = 5"

subsection \<open>Data\<close>

type_synonym uint8_t = "8 word"

text \<open>\<open>int8_t\<close>: the same eight bits, read in two's complement by \<open>sint\<close>.\<close>

type_synonym int8_t = "8 word"

text \<open>
  \<open>run_state_t\<close> is a C enum. The program computes with its values
  (\<open>RUN_SHORT + (run_level - 1)\<close>, \<open>current_run_state - RUN_SHORT\<close>,
  \<open>current_run_state > RUN_OFF\<close>), so it is kept as the integer it is in C, with the
  enumerators as named constants.
\<close>

type_synonym run_state_t = int

definition RUN_NO_STATE :: run_state_t where "RUN_NO_STATE = 0"
definition RUN_OFF :: run_state_t where "RUN_OFF = 1"
definition RUN_SHORT :: run_state_t where "RUN_SHORT = 2"
definition RUN_MED :: run_state_t where "RUN_MED = 3"
definition RUN_LONG :: run_state_t where "RUN_LONG = 4"

datatype ui_state_t = UI_OFF | UI_INPUT | UI_TIMEOUT

text \<open>
  What the program does to the outside world, in order: a busy wait of so many
  milliseconds requested from \<open>_delay_ms\<close>, a write to the output port, and the
  \<open>sleep\<close> instruction.
\<close>

datatype hw_event = EvDelay real | EvPORTB uint8_t | EvSleep

text \<open>
  The global variables of main.c, the I/O registers it writes, and the trace of its
  effects. A register holds what the program wrote last; the hardware counting in
  \<open>TCNT0\<close> and \<open>TCNT1\<close> shows only through the overflow interrupts.
\<close>

record state =
  inactive_iterations :: uint8_t
  current_run_state :: run_state_t
  desired_run_state :: run_state_t
  run_timers :: uint8_t
  ui_timers :: int8_t
  sleeping :: bool
  ui_state :: ui_state_t
  buffered_clicks :: uint8_t
  PORTB :: uint8_t
  DDRB :: uint8_t
  CLKPR :: uint8_t
  TCCR0B :: uint8_t
  TCCR1 :: uint8_t
  TIMSK :: uint8_t
  TCNT0 :: uint8_t
  TCNT1 :: uint8_t
  GIMSK :: uint8_t
  MCUCR :: uint8_t
  SREG :: uint8_t
  trace :: "hw_event list"

text \<open>The initialisers of the globals; the registers at their reset value 0.\<close>

definition power_on :: state where
  "power_on =
     \<lparr>inactive_iterations = 0, current_run_state = RUN_OFF,
      desired_run_state = RUN_NO_STATE, run_timers = 0, ui_timers = - 1,
      sleeping = False, ui_state = UI_OFF, buffered_clicks = 0,
      PORTB = 0, DDRB = 0, CLKPR = 0, TCCR0B = 0, TCCR1 = 0, TIMSK = 0, TCNT0 = 0,
      TCNT1 = 0, GIMSK = 0, MCUCR = 0, SREG = 0, trace = []\<rparr>"

subsection \<open>Utility functions\<close>

text \<open>avr-libc's \<open>_BV(bit)\<close> is \<open>1 << bit\<close>.\<close>

definition BV :: "nat \<Rightarrow> uint8_t" where
  "BV n = push_bit n 1"

text \<open>avr-libc's \<open>_delay_ms\<close>, an external busy wait: recorded in the trace.\<close>

definition avr_delay_ms :: "real \<Rightarrow> state \<Rightarrow> state" where
  "avr_delay_ms d s = s\<lparr>trace := trace s @ [EvDelay d]\<rparr>"

definition delay_ms :: "real \<Rightarrow> state \<Rightarrow> state" where
  "delay_ms ms s =
     avr_delay_ms (if ms / PRESCALE > real_of_int MIN_DELAY_MS then ms / PRESCALE
                   else real_of_int MIN_DELAY_MS) s"

text \<open>A write to \<open>PORTB\<close> drives the pins, so it is an event of the trace too.\<close>

definition write_PORTB :: "uint8_t \<Rightarrow> state \<Rightarrow> state" where
  "write_PORTB v s = s\<lparr>PORTB := v, trace := trace s @ [EvPORTB v]\<rparr>"

definition fan_off :: "state \<Rightarrow> state" where
  "fan_off s = write_PORTB (PORTB s AND NOT (BV FAN_PIN)) s"

definition fan_on :: "state \<Rightarrow> state" where
  "fan_on s = write_PORTB (PORTB s OR BV FAN_PIN) s"

definition led_on :: "state \<Rightarrow> state" where
  "led_on s = write_PORTB (PORTB s OR BV LED_PIN) s"

definition led_off :: "state \<Rightarrow> state" where
  "led_off s = write_PORTB (PORTB s AND NOT (BV LED_PIN)) s"

text \<open>\<open>for (int i = 0; i < n; i++) { led_off(); delay; led_on(); delay; led_off(); }\<close>\<close>

function blink_loop :: "int \<Rightarrow> int \<Rightarrow> state \<Rightarrow> state" where
  "blink_loop i n s =
     (if i < n
      then blink_loop (i + 1) n
             (led_off (delay_ms (real_of_int UI_MS)
               (led_on (delay_ms (real_of_int UI_MS) (led_off s)))))
      else s)"
  by pat_completeness auto
termination
  by (relation "measure (\<lambda>(i, n, s). nat (n - i))") auto

declare blink_loop.simps [simp del]

definition blink :: "int \<Rightarrow> state \<Rightarrow> state" where
  "blink n s = blink_loop 0 n s"

subsection \<open>Interrupt handlers\<close>

text \<open>Timer 1 overflow: the fan countdown.\<close>

definition TIMER1_OVF_vect :: "state \<Rightarrow> state" where
  "TIMER1_OVF_vect s =
     (if uint (run_timers s) > 0
      then (let s1 = s\<lparr>run_timers := run_timers s - 1\<rparr>
            in if uint (run_timers s1) = 0
               then s1\<lparr>desired_run_state := RUN_OFF\<rparr>
               else s1)
      else s)"

text \<open>Timer 0 overflow: the input window countdown.\<close>

definition TIMER0_OVF_vect :: "state \<Rightarrow> state" where
  "TIMER0_OVF_vect s =
     (if sint (ui_timers s) > 0 then s\<lparr>ui_timers := ui_timers s - 1\<rparr> else s)"

text \<open>INT0: the button.\<close>

definition INT0_vect :: "state \<Rightarrow> state" where
  "INT0_vect s =
     (let s1 = delay_ms (real_of_int DEBOUNCE_MS) s
      in if \<not> sleeping s1 then s1\<lparr>buffered_clicks := buffered_clicks s1 + 1\<rparr>
         else s1)"

subsection \<open>Initialisation and sleep\<close>

text \<open>
  Bit numbers of the ATtiny85 registers, as \<open>avr/io.h\<close> names them. They only decide
  which configuration bits \<open>init\<close> and \<open>sleep\<close> set.
\<close>

definition DDB0 :: nat where "DDB0 = 0"
definition DDB1 :: nat where "DDB1 = 1"
definition CLKPCE :: nat where "CLKPCE = 7"
definition CLKPS3 :: nat where "CLKPS3 = 3"
definition CS02 :: nat where "CS02 = 2"
definition TOIE0 :: nat where "TOIE0 = 1"
definition TOIE1 :: nat where "TOIE1 = 2"
definition CS13 :: nat where "CS13 = 3"
definition CS12 :: nat where "CS12 = 2"
definition CS11 :: nat where "CS11 = 1"
definition INT0 :: nat where "INT0 = 6"
definition SM1 :: nat where "SM1 = 4"
definition SE :: nat where "SE = 5"
definition ISC01 :: nat where "ISC01 = 1"

text \<open>\<open>sei()\<close> sets the global interrupt flag, bit 7 of \<open>SREG\<close>.\<close>

definition sei :: "state \<Rightarrow> state" where
  "sei s = s\<lparr>SREG := SREG s OR BV 7\<rparr>"

definition init :: "state \<Rightarrow> state" where
  "init s =
     (let s = s\<lparr>run_timers := 0\<rparr>;
          s = s\<lparr>ui_timers := - 1\<rparr>;
          s = s\<lparr>buffered_clicks := 0\<rparr>;
          s = s\<lparr>desired_run_state := RUN_NO_STATE\<rparr>;
          s = s\<lparr>current_run_state := RUN_OFF\<rparr>;
          s = s\<lparr>DDRB := 0\<rparr>;
          s = s\<lparr>DDRB := DDRB s OR (BV DDB0 OR BV DDB1)\<rparr>;
          s = s\<lparr>CLKPR := BV CLKPCE\<rparr>;
          s = s\<lparr>CLKPR := BV CLKPS3\<rparr>;
          s = s\<lparr>TCCR0B := BV CS02\<rparr>;
          s = s\<lparr>TIMSK := BV TOIE0\<rparr>;
          s = s\<lparr>TCNT0 := 0\<rparr>;
          s = s\<lparr>TCCR1 := TCCR1 s OR (BV CS13 OR BV CS12 OR BV CS11)\<rparr>;
          s = s\<lparr>TIMSK := TIMSK s OR BV TOIE1\<rparr>;
          s = s\<lparr>TCNT1 := 0\<rparr>;
          s = s\<lparr>GIMSK := GIMSK s OR BV INT0\<rparr>;
          s = s\<lparr>SREG := SREG s OR BV 7\<rparr>
      in sei s)"

text \<open>
  avr-libc's \<open>sleep_mode()\<close>: enable sleep, execute the \<open>sleep\<close> instruction, disable
  sleep. The instruction returns when an interrupt wakes the processor.
\<close>

definition sleep_mode :: "state \<Rightarrow> state" where
  "sleep_mode s =
     (let s = s\<lparr>MCUCR := MCUCR s OR BV SE\<rparr>;
          s = s\<lparr>trace := trace s @ [EvSleep]\<rparr>
      in s\<lparr>MCUCR := MCUCR s AND NOT (BV SE)\<rparr>)"

definition sleep :: "state \<Rightarrow> state" where
  "sleep s =
     (let s = s\<lparr>MCUCR := 0\<rparr>;
          s = s\<lparr>MCUCR := MCUCR s OR BV SM1\<rparr>;
          s = s\<lparr>MCUCR := MCUCR s OR BV SE\<rparr>;
          s = s\<lparr>sleeping := True\<rparr>;
          s = sleep_mode s;
          s = s\<lparr>MCUCR := MCUCR s OR BV ISC01\<rparr>
      in s\<lparr>sleeping := False\<rparr>)"

subsection \<open>The polled state machines\<close>

text \<open>
  Each handler returns its \<open>active\<close> flag and the new state. Operands narrower than
  \<open>int\<close> are promoted before C compares or subtracts them (\<open>uint\<close>, \<open>sint\<close>), and a
  result stored in a \<open>uint8_t\<close> is truncated (\<open>word_of_int\<close>).
\<close>

definition ui_handler :: "state \<Rightarrow> bool \<times> state" where
  "ui_handler s =
     (let local_clicks = buffered_clicks s;
          timeout = (sint (ui_timers s) = 0);
          active = False
      in case ui_state s of
           UI_OFF \<Rightarrow>
             if uint local_clicks > 0
             then (let s = s\<lparr>ui_state := UI_INPUT\<rparr>;
                       s = led_on s;
                       s = s\<lparr>TCNT0 := 0\<rparr>;
                       s = s\<lparr>ui_timers := word_of_int TIMER_UI_COUNT\<rparr>
                   in (True, s))
             else (active, s)
         | UI_INPUT \<Rightarrow>
             if timeout
             then (let s = s\<lparr>ui_state := UI_TIMEOUT\<rparr>;
                       s = s\<lparr>ui_timers := - 1\<rparr>
                   in (True, s))
             else (active, s)
         | UI_TIMEOUT \<Rightarrow>
             (let s = led_off s;
                  (active, s) =
                    (if uint local_clicks > 1
                     then (let run_level = (word_of_int (uint local_clicks - 1) :: uint8_t);
                               run_level = (if uint run_level \<ge> RUN_LEVELS
                                            then word_of_int RUN_LEVELS else run_level);
                               s = (if uint run_level > 0
                                    then s\<lparr>desired_run_state :=
                                             RUN_SHORT + (uint run_level - 1)\<rparr>
                                    else s);
                               s = blink (uint run_level) s
                           in (True, s))
                     else (active, s\<lparr>desired_run_state := RUN_OFF\<rparr>));
                  s = s\<lparr>ui_state := UI_OFF\<rparr>;
                  s = s\<lparr>buffered_clicks := 0\<rparr>
              in (active, s)))"

definition run_state_handler :: "state \<Rightarrow> bool \<times> state" where
  "run_state_handler s =
     (if desired_run_state s = RUN_NO_STATE
      then (current_run_state s > RUN_OFF, s)
      else (let s = s\<lparr>current_run_state := desired_run_state s\<rparr>;
                s = s\<lparr>desired_run_state := RUN_NO_STATE\<rparr>
            in if current_run_state s = RUN_OFF
               then (let s = s\<lparr>run_timers := 0\<rparr>;
                         s = fan_off s
                     in (False, s))
               else (let s = fan_on s;
                         s = s\<lparr>TCNT1 := 0\<rparr>;
                         s = s\<lparr>run_timers :=
                                 word_of_int (RUN_TIMERS_INIT +
                                   RUN_TIMERS_MULTIPLIER * (current_run_state s - RUN_SHORT))\<rparr>
                     in (True, s))))"

subsection \<open>Power policy and main loop\<close>

definition maybe_sleep :: "bool \<Rightarrow> state \<Rightarrow> state" where
  "maybe_sleep active s =
     (if active then s\<lparr>inactive_iterations := 0\<rparr>
      else (let s = s\<lparr>inactive_iterations := inactive_iterations s + 1\<rparr>
            in if uint (inactive_iterations s) > IDLE_ITERATIONS
               then (let s = sleep s in s\<lparr>inactive_iterations := 0\<rparr>)
               else s))"

definition loop :: "state \<Rightarrow> state" where
  "loop s =
     (let active = False;
          (a, s) = run_state_handler s;
          active = (active \<or> a);
          (a, s) = ui_handler s;
          active = (active \<or> a)
      in maybe_sleep active s)"

subsection \<open>Executions\<close>

text \<open>
  \<open>main\<close> calls \<open>init\<close>, \<open>blink(5)\<close> and then \<open>loop\<close> forever; \<open>init\<close> ends by
  enabling interrupts. An execution is a schedule of events: \<open>Main\<close> lets the main
  program make its next call (\<open>blink(5)\<close>, then in turn the three calls of \<open>loop\<close>),
  the other three let an interrupt handler run. Handlers run with interrupts disabled;
  the calls of the main program are taken as one step each, as the polls they are.
\<close>

datatype main_pc =
    At_blink
  | At_run_state_handler
  | At_ui_handler bool
  | At_maybe_sleep bool

datatype event = Main | Timer0 | Timer1 | Button

fun step :: "main_pc \<times> state \<Rightarrow> event \<Rightarrow> main_pc \<times> state" where
  "step (At_blink, s) Main = (At_run_state_handler, blink 5 s)"
| "step (At_run_state_handler, s) Main =
     (let (a, s') = run_state_handler s in (At_ui_handler (False \<or> a), s'))"
| "step (At_ui_handler active, s) Main =
     (let (a, s') = ui_handler s in (At_maybe_sleep (active \<or> a), s'))"
| "step (At_maybe_sleep active, s) Main = (At_run_state_handler, maybe_sleep active s)"
| "step (pc, s) Timer0 = (pc, TIMER0_OVF_vect s)"
| "step (pc, s) Timer1 = (pc, TIMER1_OVF_vect s)"
| "step (pc, s) Button = (pc, INT0_vect s)"

definition run_events :: "event list \<Rightarrow> main_pc \<times> state" where
  "run_events evs = foldl step (At_blink, init power_on) evs"

subsection \<open>Scenarios and observations\<close>

text \<open>
  One acknowledgment blink as it appears in the trace, on a port holding \<open>p\<close>: LED
  off, wait, LED on, wait, LED off. Each wait is the 5 ms that \<open>delay_ms\<close> requests for
  \<open>UI_MS\<close>.
\<close>

definition blink_pattern :: "uint8_t \<Rightarrow> hw_event list" where
  "blink_pattern p =
     [EvPORTB (p AND NOT (BV LED_PIN)), EvDelay 5, EvPORTB (p OR BV LED_PIN), EvDelay 5,
      EvPORTB (p AND NOT (BV LED_PIN))]"

text \<open>
  An input window, as a schedule of events. The resolving poll is the call of
  \<open>ui_handler\<close> made in the state \<open>UI_TIMEOUT\<close>. A schedule stays within one window
  when none of its steps is a resolving poll: button presses, timer overflows and the
  polls of the main loop may come in any number and any order, before and after the poll
  that opens the window and the poll that closes it. The presses of the window are the
  \<open>Button\<close> events of the schedule.
\<close>

fun resolving_poll :: "main_pc \<times> state \<Rightarrow> event \<Rightarrow> bool" where
  "resolving_poll (At_ui_handler a, s) Main = (ui_state s = UI_TIMEOUT)"
| "resolving_poll c e = False"

fun in_window :: "main_pc \<times> state \<Rightarrow> event list \<Rightarrow> bool" where
  "in_window c [] = True"
| "in_window c (e # es) = (\<not> resolving_poll c e \<and> in_window (step c e) es)"

section \<open>Properties\<close>

subsection \<open>Auxiliary facts\<close>

lemmas run_state_defs = RUN_NO_STATE_def RUN_OFF_def RUN_SHORT_def RUN_MED_def RUN_LONG_def

lemma led_mask_idem: "(p AND NOT (BV LED_PIN)) AND NOT (BV LED_PIN) = p AND NOT (BV LED_PIN)"
  by (simp add: bit_eq_iff bit_simps)

lemma led_mask_or: "(p AND NOT (BV LED_PIN)) OR BV LED_PIN = p OR BV LED_PIN"
  by (auto simp add: bit_eq_iff bit_simps BV_def LED_PIN_def)

lemma led_or_mask: "(p OR BV LED_PIN) AND NOT (BV LED_PIN) = p AND NOT (BV LED_PIN)"
  by (auto simp add: bit_eq_iff bit_simps)

lemma blink_pattern_masked: "blink_pattern (p AND NOT (BV LED_PIN)) = blink_pattern p"
  by (simp add: blink_pattern_def led_mask_idem led_mask_or)

lemma delay_ms_UI: "delay_ms (real_of_int UI_MS) s = s\<lparr>trace := trace s @ [EvDelay 5]\<rparr>"
  by (simp add: delay_ms_def avr_delay_ms_def PRESCALE_def MIN_DELAY_MS_def UI_MS_def)

lemma delay_ms_DEBOUNCE: "delay_ms (real_of_int DEBOUNCE_MS) s = s\<lparr>trace := trace s @ [EvDelay 5]\<rparr>"
  by (simp add: delay_ms_def avr_delay_ms_def PRESCALE_def MIN_DELAY_MS_def DEBOUNCE_MS_def)

lemma blink_body:
  "led_off (delay_ms (real_of_int UI_MS) (led_on (delay_ms (real_of_int UI_MS) (led_off s)))) =
     s\<lparr>PORTB := PORTB s AND NOT (BV LED_PIN), trace := trace s @ blink_pattern (PORTB s)\<rparr>"
  by (simp add: delay_ms_UI led_off_def led_on_def write_PORTB_def blink_pattern_def
      led_mask_idem led_mask_or led_or_mask)

lemma blink_loop_eq:
  "blink_loop i n s =
     (if i < n
      then s\<lparr>PORTB := PORTB s AND NOT (BV LED_PIN),
             trace := trace s @ concat (replicate (nat (n - i)) (blink_pattern (PORTB s)))\<rparr>
      else s)"
proof (induction i n s rule: blink_loop.induct)
  case (1 i n s)
  show ?case
  proof (cases "i < n")
    case False
    then show ?thesis by (simp add: blink_loop.simps [of i n s])
  next
    case True
    then have cnt: "nat (n - i) = Suc (nat (n - (i + 1)))" by simp
    have unf: "blink_loop i n s = blink_loop (i + 1) n
        (s\<lparr>PORTB := PORTB s AND NOT (BV LED_PIN), trace := trace s @ blink_pattern (PORTB s)\<rparr>)"
      using True by (simp add: blink_loop.simps [of i n s] blink_body)
    show ?thesis
      using True "1.IH" [OF True]
      by (simp only: unf blink_body cnt) (simp add: blink_pattern_masked led_mask_idem)
  qed
qed

lemma blink_eq:
  "blink n s =
     (if 0 < n
      then s\<lparr>PORTB := PORTB s AND NOT (BV LED_PIN),
             trace := trace s @ concat (replicate (nat n) (blink_pattern (PORTB s)))\<rparr>
      else s)"
  by (simp add: blink_def blink_loop_eq)

lemma INT0_vect_eq:
  "INT0_vect s =
     s\<lparr>buffered_clicks := (if sleeping s then buffered_clicks s else buffered_clicks s + 1),
       trace := trace s @ [EvDelay 5]\<rparr>"
  by (simp add: INT0_vect_def delay_ms_DEBOUNCE Let_def)

lemma presses_eq:
  "\<not> sleeping s \<Longrightarrow>
   (INT0_vect ^^ n) s =
     s\<lparr>buffered_clicks := buffered_clicks s + of_nat n,
       trace := trace s @ replicate n (EvDelay 5)\<rparr>"
proof (induction n)
  case 0
  then show ?case by simp
next
  case (Suc n)
  then show ?case
    by (simp add: INT0_vect_eq add.assoc replicate_append_same)
qed

lemma uint8_pos: "uint (w :: uint8_t) > 0 \<longleftrightarrow> w \<noteq> 0"
  using uint_nonnegative [of w] by (auto simp add: order_less_le uint_0_iff)

lemma ui_handler_OFF:
  "ui_state s = UI_OFF \<Longrightarrow>
   ui_handler s =
     (if buffered_clicks s \<noteq> 0
      then (True, s\<lparr>ui_state := UI_INPUT, PORTB := PORTB s OR BV LED_PIN, TCNT0 := 0,
                    ui_timers := 1,
                    trace := trace s @ [EvPORTB (PORTB s OR BV LED_PIN)]\<rparr>)
      else (False, s))"
  by (simp add: ui_handler_def Let_def uint8_pos led_on_def write_PORTB_def TIMER_UI_COUNT_def)

lemma ui_handler_INPUT:
  "ui_state s = UI_INPUT \<Longrightarrow>
   ui_handler s =
     (if ui_timers s = 0
      then (True, s\<lparr>ui_state := UI_TIMEOUT, ui_timers := - 1\<rparr>)
      else (False, s))"
  by (simp add: ui_handler_def Let_def signed_eq_0_iff)

lemma uint8_pred: "uint (w :: uint8_t) > 0 \<Longrightarrow> uint (w - 1) = uint w - 1"
  by (simp add: uint_sub_lem [THEN iffD1] word_le_def)

lemma ui_handler_TIMEOUT_none:
  assumes "ui_state s = UI_TIMEOUT" and "\<not> uint (buffered_clicks s) > 1"
  shows "ui_handler s =
     (False,
      s\<lparr>desired_run_state := RUN_OFF, ui_state := UI_OFF, buffered_clicks := 0,
        PORTB := PORTB s AND NOT (BV LED_PIN),
        trace := trace s @ [EvPORTB (PORTB s AND NOT (BV LED_PIN))]\<rparr>)"
  using assms by (simp add: ui_handler_def Let_def led_off_def write_PORTB_def)

lemma ui_handler_TIMEOUT_some_raw:
  assumes "ui_state s = UI_TIMEOUT" and "uint (buffered_clicks s) > 1"
    and "run_level = (if uint (buffered_clicks s - 1) \<ge> 3 then 3 else buffered_clicks s - 1)"
  shows "ui_handler s =
     (True, (blink (uint run_level)
              (if uint run_level > 0
               then (led_off s)\<lparr>desired_run_state := RUN_SHORT + (uint run_level - 1)\<rparr>
               else led_off s))\<lparr>ui_state := UI_OFF, buffered_clicks := 0\<rparr>)"
  using assms by (simp add: ui_handler_def Let_def RUN_LEVELS_def)

lemma ui_handler_TIMEOUT_some:
  assumes ts: "ui_state s = UI_TIMEOUT" and gt: "uint (buffered_clicks s) > 1"
  shows "ui_handler s =
     (True,
      s\<lparr>desired_run_state := RUN_SHORT + (min (uint (buffered_clicks s) - 1) 3 - 1),
        ui_state := UI_OFF, buffered_clicks := 0,
        PORTB := PORTB s AND NOT (BV LED_PIN),
        trace := trace s @ EvPORTB (PORTB s AND NOT (BV LED_PIN)) #
          concat (replicate (nat (min (uint (buffered_clicks s) - 1) 3))
            (blink_pattern (PORTB s)))\<rparr>)"
proof -
  define rl where "rl = (if uint (buffered_clicks s - 1) \<ge> 3 then 3 else buffered_clicks s - 1)"
  have u: "uint rl = min (uint (buffered_clicks s) - 1) 3"
    using uint8_pred [of "buffered_clicks s"] gt by (simp add: rl_def min_def)
  have pos: "0 < min (uint (buffered_clicks s) - 1) 3"
    using gt by simp
  show ?thesis
    using pos
    by (simp only: ui_handler_TIMEOUT_some_raw [OF ts gt rl_def] u)
      (simp add: blink_eq led_off_def write_PORTB_def blink_pattern_masked led_mask_idem)
qed


lemma fan_bit_set: "bit (p OR BV FAN_PIN) FAN_PIN"
  by (simp add: BV_def FAN_PIN_def bit_simps)

lemma fan_bit_clear: "\<not> bit (p AND NOT (BV FAN_PIN)) FAN_PIN"
  by (simp add: BV_def FAN_PIN_def bit_simps)

lemma led_bit_clear: "\<not> bit (p AND NOT (BV LED_PIN)) LED_PIN"
  by (simp add: BV_def LED_PIN_def bit_simps)

subsection \<open>The inactive branch of the power policy\<close>

lemma maybe_sleep_inactive:
  "maybe_sleep False s = s\<lparr>inactive_iterations := inactive_iterations s + 1\<rparr>"
  using uint_lt2p [of "inactive_iterations s + 1"]
  by (simp add: maybe_sleep_def Let_def IDLE_ITERATIONS_def)

lemma maybe_sleep_eq:
  "maybe_sleep active s =
     s\<lparr>inactive_iterations := (if active then 0 else inactive_iterations s + 1)\<rparr>"
  by (cases active) (simp_all add: maybe_sleep_inactive, simp add: maybe_sleep_def)

subsection \<open>Multi-click resolution\<close>

text \<open>
  Within a window only the button handler changes \<open>buffered_clicks\<close>, and nothing sets
  \<open>sleeping\<close>: after a schedule with \<open>n\<close> presses the buffer has grown by \<open>n\<close> (modulo
  256), and the input state machine has left \<open>UI_OFF\<close> only if there was a press.
\<close>

lemma run_state_handler_ui_frame:
  "sleeping (snd (run_state_handler s)) = sleeping s \<and>
   buffered_clicks (snd (run_state_handler s)) = buffered_clicks s \<and>
   ui_state (snd (run_state_handler s)) = ui_state s"
  by (simp add: run_state_handler_def Let_def fan_on_def fan_off_def write_PORTB_def)

lemma of_nat_nonzero: "(of_nat k :: uint8_t) \<noteq> 0 \<Longrightarrow> 0 < k"
  by (cases k) simp_all

lemma step_in_window:
  assumes sl: "\<not> sleeping s" and bc: "buffered_clicks s = of_nat k"
    and op: "ui_state s \<noteq> UI_OFF \<longrightarrow> 0 < k"
    and nr: "\<not> resolving_poll (pc, s) e"
  shows "\<not> sleeping (snd (step (pc, s) e)) \<and>
     buffered_clicks (snd (step (pc, s) e)) = of_nat (k + (if e = Button then 1 else 0)) \<and>
     (ui_state (snd (step (pc, s) e)) \<noteq> UI_OFF \<longrightarrow> 0 < k + (if e = Button then 1 else 0))"
proof (cases e)
  case Main
  show ?thesis
  proof (cases pc)
    case At_blink
    with Main sl bc op show ?thesis by (simp add: blink_eq)
  next
    case At_run_state_handler
    with Main sl bc op show ?thesis
      by (simp add: split_def Let_def run_state_handler_ui_frame)
  next
    case (At_ui_handler a)
    show ?thesis
    proof (cases "ui_state s")
      case UI_OFF
      with Main At_ui_handler sl bc of_nat_nonzero [of k] show ?thesis
        by (auto simp add: split_def Let_def ui_handler_OFF)
    next
      case UI_INPUT
      with Main At_ui_handler sl bc op show ?thesis
        by (simp add: split_def Let_def ui_handler_INPUT)
    next
      case UI_TIMEOUT
      with Main At_ui_handler nr show ?thesis by simp
    qed
  next
    case (At_maybe_sleep a)
    with Main sl bc op show ?thesis by (simp add: maybe_sleep_eq)
  qed
next
  case Timer0
  with sl bc op show ?thesis by (simp add: TIMER0_OVF_vect_def)
next
  case Timer1
  with sl bc op show ?thesis by (simp add: TIMER1_OVF_vect_def Let_def)
next
  case Button
  with sl bc show ?thesis by (simp add: INT0_vect_eq)
qed

lemma in_window_count:
  assumes "\<not> sleeping (snd c)" and "buffered_clicks (snd c) = of_nat k"
    and "ui_state (snd c) \<noteq> UI_OFF \<longrightarrow> 0 < k" and "in_window c evs"
  shows "\<not> sleeping (snd (foldl step c evs)) \<and>
     buffered_clicks (snd (foldl step c evs)) = of_nat (k + count_list evs Button) \<and>
     (ui_state (snd (foldl step c evs)) \<noteq> UI_OFF \<longrightarrow> 0 < k + count_list evs Button)"
  using assms
proof (induction evs arbitrary: c k)
  case Nil
  then show ?case by simp
next
  case (Cons e evs)
  obtain pc s where c: "c = (pc, s)" by (cases c)
  from Cons.prems c have nr: "\<not> resolving_poll (pc, s) e" and w: "in_window (step (pc, s) e) evs"
    by simp_all
  from Cons.prems c have pre: "\<not> sleeping s" "buffered_clicks s = of_nat k"
    "ui_state s \<noteq> UI_OFF \<longrightarrow> 0 < k" by simp_all
  define k' where "k' = k + (if e = Button then 1 else 0)"
  have st: "\<not> sleeping (snd (step (pc, s) e))"
    "buffered_clicks (snd (step (pc, s) e)) = of_nat k'"
    "ui_state (snd (step (pc, s) e)) \<noteq> UI_OFF \<longrightarrow> 0 < k'"
    using step_in_window [OF pre nr, folded k'_def] by simp_all
  have eq: "k + count_list (e # evs) Button = k' + count_list evs Button"
    by (simp add: k'_def)
  show ?case
    unfolding c eq foldl_Cons by (rule Cons.IH [OF st w])
qed

lemma uint_of_nat_mod: "uint (of_nat N :: uint8_t) = int (N mod 256)"
  by (simp add: uint_nat unat_of_nat)

lemma foldl_step_presses:
  "foldl step (pc, s) (replicate n Button) = (pc, (INT0_vect ^^ n) s)"
proof (induction n arbitrary: s)
  case 0
  show ?case by simp
next
  case (Suc n)
  show ?case by (simp add: Suc.IH funpow_swap1)
qed

lemma in_window_presses: "in_window (pc, s) (replicate n Button)"
  by (induction n arbitrary: s) simp_all

lemma in_window_append:
  "in_window c (xs @ ys) \<longleftrightarrow> in_window c xs \<and> in_window (foldl step c xs) ys"
  by (induction xs arbitrary: c) simp_all

lemma count_list_presses: "count_list (replicate n Button) Button = n"
  by (induction n) simp_all

text \<open>
  C2, as amended. Take any schedule that starts with the input state machine idle
  (\<open>UI_OFF\<close>, no buffered click, not sleeping), stays within one input window and ends
  with the window closed (\<open>UI_TIMEOUT\<close>), and let \<open>N\<close> be the number of button presses in
  it, however they are interleaved with the polls of the main loop and the timer
  interrupts. Then \<open>N \<ge> 1\<close>, the click buffer holds \<open>k = N mod 256\<close> (so \<open>k = N\<close> for
  \<open>N \<le> 255\<close>), and the resolving poll, with \<open>run_level = min (k - 1) 3\<close>, does the
  following. If \<open>k > 1\<close> it requests \<open>RUN_SHORT + (run_level - 1)\<close> (2 give Short, 3 Med,
  4 or more Long), reports active, and after switching the LED off emits exactly
  \<open>run_level\<close> acknowledgment blinks. If \<open>k \<le> 1\<close> it requests Off, reports inactive, and
  only switches the LED off.
\<close>

theorem multi_click_resolution:
  assumes "ui_state (snd c) = UI_OFF" and "buffered_clicks (snd c) = 0"
    and "\<not> sleeping (snd c)" and "in_window c evs"
    and "ui_state (snd (foldl step c evs)) = UI_TIMEOUT"
  shows "let N = count_list evs Button; k = N mod 256; w = snd (foldl step c evs);
         (active, s') = ui_handler w; run_level = min (k - 1) 3 in
     1 \<le> N \<and> (N \<le> 255 \<longrightarrow> k = N) \<and>
     (1 < k \<longrightarrow>
        desired_run_state s' = RUN_SHORT + (int run_level - 1) \<and> active \<and>
        trace s' = trace w @ EvPORTB (PORTB w AND NOT (BV LED_PIN)) #
                     concat (replicate run_level (blink_pattern (PORTB w)))) \<and>
     (k \<le> 1 \<longrightarrow>
        desired_run_state s' = RUN_OFF \<and> \<not> active \<and>
        trace s' = trace w @ [EvPORTB (PORTB w AND NOT (BV LED_PIN))]) \<and>
     (k = 2 \<longrightarrow> desired_run_state s' = RUN_SHORT) \<and>
     (k = 3 \<longrightarrow> desired_run_state s' = RUN_MED) \<and>
     (4 \<le> k \<longrightarrow> desired_run_state s' = RUN_LONG)"
proof -
  let ?N = "count_list evs Button"
  let ?k = "?N mod 256"
  let ?w = "snd (foldl step c evs)"
  have inv: "buffered_clicks ?w = of_nat ?N" "ui_state ?w \<noteq> UI_OFF \<longrightarrow> 0 < ?N"
    using in_window_count [of c 0 evs] assms(1-4) by simp_all
  have ts: "ui_state ?w = UI_TIMEOUT" by (fact assms(5))
  have N: "1 \<le> ?N" using inv(2) ts by simp
  have c: "uint (buffered_clicks ?w) = int ?k"
    by (simp add: inv(1) uint_of_nat_mod)
  show ?thesis
  proof (cases "1 < ?k")
    case True
    then have gt: "uint (buffered_clicks ?w) > 1" by (simp add: c)
    have lv: "nat (min (int ?k - 1) 3) = min (?k - 1) 3"
      "min (int ?k - 1) 3 = int (min (?k - 1) 3)"
      using True by arith+
    have lvl: "?k = 2 \<longrightarrow> min (?k - 1) 3 = 1" "?k = 3 \<longrightarrow> min (?k - 1) 3 = 2"
      "4 \<le> ?k \<longrightarrow> min (?k - 1) 3 = 3"
      by arith+
    show ?thesis
      using True lvl N
      by (simp add: Let_def ui_handler_TIMEOUT_some [OF ts gt] c lv run_state_defs)
  next
    case False
    then have le: "\<not> uint (buffered_clicks ?w) > 1" by (simp add: c)
    show ?thesis
      using False N
      by (simp add: Let_def ui_handler_TIMEOUT_none [OF ts le])
  qed
qed

theorem multi_click_resolution_witness:
  "in_window (At_run_state_handler,
       power_on\<lparr>current_run_state := RUN_SHORT, run_timers := 1, PORTB := 2\<rparr>)
     [Button, Button, Main, Main, Main, Button, Timer1, Main, Timer0, Main, Main, Main] \<and>
   ui_state (snd (foldl step (At_run_state_handler,
       power_on\<lparr>current_run_state := RUN_SHORT, run_timers := 1, PORTB := 2\<rparr>)
     [Button, Button, Main, Main, Main, Button, Timer1, Main, Timer0, Main, Main, Main])) =
     UI_TIMEOUT \<and>
   desired_run_state (snd (ui_handler (snd (foldl step (At_run_state_handler,
       power_on\<lparr>current_run_state := RUN_SHORT, run_timers := 1, PORTB := 2\<rparr>)
     [Button, Button, Main, Main, Main, Button, Timer1, Main, Timer0, Main, Main, Main])))) =
     RUN_MED \<and>
   in_window (At_ui_handler False, power_on) [Button, Main, Main, Timer0, Main, Main] \<and>
   ui_state (snd (foldl step (At_ui_handler False, power_on)
     [Button, Main, Main, Timer0, Main, Main])) = UI_TIMEOUT \<and>
   desired_run_state (snd (ui_handler (snd (foldl step (At_ui_handler False, power_on)
     [Button, Main, Main, Timer0, Main, Main])))) = RUN_OFF \<and>
   in_window (At_ui_handler False, power_on)
     [Button, Button, Main, Button, Main, Button, Button, Timer0, Main, Button, Main] \<and>
   ui_state (snd (foldl step (At_ui_handler False, power_on)
     [Button, Button, Main, Button, Main, Button, Button, Timer0, Main, Button, Main])) =
     UI_TIMEOUT \<and>
   desired_run_state (snd (ui_handler (snd (foldl step (At_ui_handler False, power_on)
     [Button, Button, Main, Button, Main, Button, Button, Timer0, Main, Button, Main])))) =
     RUN_LONG"
proof -
  let ?c = "(At_run_state_handler,
       power_on\<lparr>current_run_state := RUN_SHORT, run_timers := 1, PORTB := 2\<rparr>)"
  let ?evs = "[Button, Button, Main, Main, Main, Button, Timer1, Main, Timer0, Main, Main, Main]"
  let ?d = "(At_ui_handler False, power_on)"
  let ?one = "[Button, Main, Main, Timer0, Main, Main]"
  let ?six = "[Button, Button, Main, Button, Main, Button, Button, Timer0, Main, Button, Main]"
  note ev = power_on_def INT0_vect_eq run_state_handler_def ui_handler_OFF
    ui_handler_INPUT maybe_sleep_eq TIMER1_OVF_vect_def TIMER0_OVF_vect_def Let_def
    run_state_defs fan_off_def write_PORTB_def
  have w3: "in_window ?c ?evs" "ui_state (snd (foldl step ?c ?evs)) = UI_TIMEOUT"
    by (simp_all add: ev)
  have w1: "in_window ?d ?one" "ui_state (snd (foldl step ?d ?one)) = UI_TIMEOUT"
    by (simp_all add: ev)
  have w6: "in_window ?d ?six" "ui_state (snd (foldl step ?d ?six)) = UI_TIMEOUT"
    by (simp_all add: ev)
  have idle: "ui_state (snd ?c) = UI_OFF" "buffered_clicks (snd ?c) = 0" "\<not> sleeping (snd ?c)"
    "ui_state (snd ?d) = UI_OFF" "buffered_clicks (snd ?d) = 0" "\<not> sleeping (snd ?d)"
    by (simp_all add: power_on_def)
  show ?thesis
    using multi_click_resolution [OF idle(1-3) w3] multi_click_resolution [OF idle(4-6) w1]
      multi_click_resolution [OF idle(4-6) w6] w1 w3 w6
    by (simp add: Let_def split_def)
qed

text \<open>
  The claim as stated, with \<open>N\<close> itself in place of \<open>N mod 256\<close>, fails at \<open>N = 256\<close>:
  one press, the poll that opens the window, 255 more presses, the timer 0 overflow and
  the polls up to the one that closes the window. The click buffer has wrapped to 0, so
  the resolving poll requests Off and reports inactive, where \<open>min (N - 1) 3 = 3\<close> would
  mean Long.
\<close>

theorem multi_click_counterexample:
  "in_window (At_ui_handler False, power_on)
     (Button # Main # replicate 255 Button @ [Timer0, Main, Main, Main]) \<and>
   count_list (Button # Main # replicate 255 Button @ [Timer0, Main, Main, Main]) Button = 256 \<and>
   ui_state (snd (foldl step (At_ui_handler False, power_on)
     (Button # Main # replicate 255 Button @ [Timer0, Main, Main, Main]))) = UI_TIMEOUT \<and>
   \<not> fst (ui_handler (snd (foldl step (At_ui_handler False, power_on)
     (Button # Main # replicate 255 Button @ [Timer0, Main, Main, Main])))) \<and>
   desired_run_state (snd (ui_handler (snd (foldl step (At_ui_handler False, power_on)
     (Button # Main # replicate 255 Button @ [Timer0, Main, Main, Main]))))) = RUN_OFF \<and>
   RUN_OFF \<noteq> RUN_SHORT + (int (min (256 - 1) 3) - 1)"
proof -
  let ?c = "(At_ui_handler False, power_on)"
  let ?evs = "Button # Main # replicate 255 Button @ [Timer0, Main, Main, Main]"
  note ev = power_on_def INT0_vect_eq run_state_handler_def ui_handler_OFF
    ui_handler_INPUT maybe_sleep_eq TIMER0_OVF_vect_def Let_def run_state_defs
    foldl_step_presses in_window_append in_window_presses presses_eq
  define w where "w = snd (foldl step ?c ?evs)"
  have a: "in_window ?c ?evs"
    by (simp add: ev)
  have b: "ui_state w = UI_TIMEOUT" "buffered_clicks w = 0"
    unfolding w_def by (simp_all add: ev)
  have le: "\<not> uint (buffered_clicks w) > 1"
    by (simp add: b)
  have r: "\<not> fst (ui_handler w)" "desired_run_state (snd (ui_handler w)) = RUN_OFF"
    by (simp_all add: ui_handler_TIMEOUT_none [OF b(1) le])
  have n: "count_list ?evs Button = 256"
    by (simp add: count_list_presses)
  have d: "RUN_OFF \<noteq> RUN_SHORT + (int (min (256 - 1) 3) - 1)"
    by (simp add: run_state_defs)
  show ?thesis
    using a b(1) r n d unfolding w_def by (intro conjI)
qed

subsection \<open>The delay primitive\<close>

text \<open>
  C3, as amended. \<open>delay_ms ms\<close> requests a busy wait of \<open>max (ms / 128) 5\<close>
  milliseconds: the requested duration divided by \<open>PRESCALE = 128\<close> when that exceeds
  \<open>MIN_DELAY_MS = 5\<close>, and 5 ms otherwise. The rule is the same for every request; under
  it the debounce delay (100) and the blink delay (200) are both waited as 5 ms, and only
  a request above 640, such as 1280, is waited as \<open>ms / 128\<close>.
\<close>

theorem delay_ms_floor:
  "delay_ms ms s = avr_delay_ms (max (ms / 128) 5) s \<and>
   delay_ms (real_of_int DEBOUNCE_MS) s = avr_delay_ms 5 s \<and>
   delay_ms (real_of_int UI_MS) s = avr_delay_ms 5 s \<and>
   delay_ms 1280 s = avr_delay_ms (1280 / 128) s"
  by (simp add: delay_ms_def PRESCALE_def MIN_DELAY_MS_def DEBOUNCE_MS_def UI_MS_def max_def)

text \<open>
  The claim as stated, a wait of exactly \<open>ms / 128\<close> for every request, fails for the
  debounce delay: \<open>100 / 128\<close> is below the floor, so 5 ms are requested.
\<close>

theorem delay_ms_counterexample:
  "delay_ms (real_of_int DEBOUNCE_MS) power_on \<noteq>
     avr_delay_ms (real_of_int DEBOUNCE_MS / 128) power_on"
  by (simp add: delay_ms_def avr_delay_ms_def PRESCALE_def MIN_DELAY_MS_def DEBOUNCE_MS_def
      power_on_def)

subsection \<open>Run state machine\<close>

text \<open>
  C4. Polled with a pending request (\<open>desired_run_state\<close> one of Off, Short, Med, Long,
  so not the sentinel), \<open>run_state_handler\<close> copies the request into
  \<open>current_run_state\<close> and clears \<open>desired_run_state\<close> to \<open>RUN_NO_STATE\<close>. For Off it
  zeroes \<open>run_timers\<close>, clears the fan pin and reports inactive; for Short, Med, Long it
  sets the fan pin, sets \<open>run_timers\<close> to \<open>20 + 20 * level_index\<close> with level index 0,
  1, 2, and reports active.
\<close>

theorem run_state_handler_transition:
  assumes "desired_run_state s \<in> {RUN_OFF, RUN_SHORT, RUN_MED, RUN_LONG}"
  shows "let (active, s') = run_state_handler s in
     current_run_state s' = desired_run_state s \<and>
     desired_run_state s' = RUN_NO_STATE \<and>
     (desired_run_state s = RUN_OFF \<longrightarrow>
        run_timers s' = 0 \<and> \<not> bit (PORTB s') FAN_PIN \<and> \<not> active) \<and>
     (desired_run_state s \<noteq> RUN_OFF \<longrightarrow>
        bit (PORTB s') FAN_PIN \<and> active \<and>
        uint (run_timers s') =
          20 + 20 * (if desired_run_state s = RUN_SHORT then 0
                     else if desired_run_state s = RUN_MED then 1 else 2))"
  using assms
  by (auto simp add: run_state_handler_def Let_def run_state_defs fan_on_def fan_off_def
      write_PORTB_def fan_bit_set fan_bit_clear RUN_TIMERS_INIT_def RUN_TIMERS_MULTIPLIER_def)

theorem run_state_handler_transition_witness:
  "desired_run_state (power_on\<lparr>desired_run_state := RUN_MED\<rparr>)
     \<in> {RUN_OFF, RUN_SHORT, RUN_MED, RUN_LONG} \<and>
   uint (run_timers (snd (run_state_handler (power_on\<lparr>desired_run_state := RUN_MED\<rparr>)))) = 40 \<and>
   fst (run_state_handler (power_on\<lparr>desired_run_state := RUN_MED\<rparr>)) \<and>
   current_run_state (snd (run_state_handler (power_on\<lparr>desired_run_state := RUN_MED\<rparr>))) =
     RUN_MED \<and>
   desired_run_state (power_on\<lparr>desired_run_state := RUN_OFF, run_timers := 9\<rparr>)
     \<in> {RUN_OFF, RUN_SHORT, RUN_MED, RUN_LONG} \<and>
   run_timers (snd (run_state_handler
     (power_on\<lparr>desired_run_state := RUN_OFF, run_timers := 9\<rparr>))) = 0 \<and>
   \<not> fst (run_state_handler (power_on\<lparr>desired_run_state := RUN_OFF, run_timers := 9\<rparr>))"
  using run_state_handler_transition [of "power_on\<lparr>desired_run_state := RUN_MED\<rparr>"]
    run_state_handler_transition
      [of "power_on\<lparr>desired_run_state := RUN_OFF, run_timers := 9\<rparr>"]
  by (simp add: split_def Let_def run_state_defs)

text \<open>
  C5. Polled with \<open>desired_run_state\<close> the sentinel, \<open>run_state_handler\<close> leaves the
  whole state as it is (so \<open>current_run_state\<close>, \<open>run_timers\<close>, the output port and
  the trace of outputs), and reports active exactly when \<open>current_run_state\<close> is one of
  the on-states Short, Med, Long.
\<close>

theorem run_state_handler_sentinel:
  assumes "desired_run_state s = RUN_NO_STATE"
    and "current_run_state s \<in> {RUN_NO_STATE, RUN_OFF, RUN_SHORT, RUN_MED, RUN_LONG}"
  shows "snd (run_state_handler s) = s \<and>
     (fst (run_state_handler s) \<longleftrightarrow> current_run_state s \<in> {RUN_SHORT, RUN_MED, RUN_LONG})"
  using assms by (auto simp add: run_state_handler_def run_state_defs)

theorem run_state_handler_sentinel_witness:
  "desired_run_state (power_on\<lparr>current_run_state := RUN_LONG\<rparr>) = RUN_NO_STATE \<and>
   current_run_state (power_on\<lparr>current_run_state := RUN_LONG\<rparr>)
     \<in> {RUN_NO_STATE, RUN_OFF, RUN_SHORT, RUN_MED, RUN_LONG} \<and>
   snd (run_state_handler (power_on\<lparr>current_run_state := RUN_LONG\<rparr>)) =
     power_on\<lparr>current_run_state := RUN_LONG\<rparr> \<and>
   fst (run_state_handler (power_on\<lparr>current_run_state := RUN_LONG\<rparr>))"
  using run_state_handler_sentinel [of "power_on\<lparr>current_run_state := RUN_LONG\<rparr>"]
  by (simp add: power_on_def run_state_defs)

subsection \<open>Interrupt handlers\<close>

text \<open>
  C6. On an overflow of timer 1 the handler does nothing when \<open>run_timers\<close> is 0;
  otherwise it decrements \<open>run_timers\<close> by one. It writes \<open>desired_run_state\<close> only
  when the decrement reaches zero (the counter was 1), and then writes \<open>RUN_OFF\<close>. Every
  other component of the state is left as it was.
\<close>

theorem TIMER1_OVF_vect_countdown:
  "(uint (run_timers s) = 0 \<longrightarrow> TIMER1_OVF_vect s = s) \<and>
   (uint (run_timers s) > 0 \<longrightarrow>
      uint (run_timers (TIMER1_OVF_vect s)) = uint (run_timers s) - 1) \<and>
   desired_run_state (TIMER1_OVF_vect s) =
     (if uint (run_timers s) = 1 then RUN_OFF else desired_run_state s) \<and>
   TIMER1_OVF_vect s =
     s\<lparr>run_timers := run_timers (TIMER1_OVF_vect s),
       desired_run_state := desired_run_state (TIMER1_OVF_vect s)\<rparr>"
proof (cases "uint (run_timers s) > 0")
  case False
  then show ?thesis by (simp add: TIMER1_OVF_vect_def)
next
  case True
  note p = uint8_pred [OF True]
  show ?thesis
    using True by (simp add: TIMER1_OVF_vect_def Let_def p)
qed

theorem TIMER1_OVF_vect_countdown_witness:
  "uint (run_timers (power_on\<lparr>run_timers := 1\<rparr>)) > 0 \<and>
   uint (run_timers (TIMER1_OVF_vect (power_on\<lparr>run_timers := 1\<rparr>))) = 0 \<and>
   desired_run_state (TIMER1_OVF_vect (power_on\<lparr>run_timers := 1\<rparr>)) = RUN_OFF \<and>
   uint (run_timers (power_on\<lparr>run_timers := 0\<rparr>)) = 0 \<and>
   TIMER1_OVF_vect (power_on\<lparr>run_timers := 0\<rparr>) = power_on\<lparr>run_timers := 0\<rparr>"
  using TIMER1_OVF_vect_countdown [of "power_on\<lparr>run_timers := 1\<rparr>"]
    TIMER1_OVF_vect_countdown [of "power_on\<lparr>run_timers := 0\<rparr>"]
  by simp

text \<open>
  C9. The button handler first waits the debounce delay (5 ms requested), then adds one
  to \<open>buffered_clicks\<close> (a \<open>uint8_t\<close>, so modulo 256) exactly when \<open>sleeping\<close> is false,
  and leaves it as it is when \<open>sleeping\<close> is true. Apart from the delay in the trace
  nothing else changes: not \<open>ui_state\<close>, the timers, the timer registers, the output
  port, the run states or the sleeping flag.
\<close>

theorem INT0_vect_frame:
  "INT0_vect s =
     s\<lparr>buffered_clicks := (if sleeping s then buffered_clicks s else buffered_clicks s + 1),
       trace := trace s @ [EvDelay 5]\<rparr> \<and>
   (buffered_clicks (INT0_vect s) = buffered_clicks s + 1 \<longleftrightarrow> \<not> sleeping s) \<and>
   (buffered_clicks (INT0_vect s) = buffered_clicks s \<longleftrightarrow> sleeping s) \<and>
   ui_state (INT0_vect s) = ui_state s \<and>
   ui_timers (INT0_vect s) = ui_timers s \<and> run_timers (INT0_vect s) = run_timers s \<and>
   TCNT0 (INT0_vect s) = TCNT0 s \<and> TCNT1 (INT0_vect s) = TCNT1 s \<and>
   PORTB (INT0_vect s) = PORTB s \<and>
   current_run_state (INT0_vect s) = current_run_state s \<and>
   desired_run_state (INT0_vect s) = desired_run_state s \<and>
   sleeping (INT0_vect s) = sleeping s"
  by (simp add: INT0_vect_eq)

theorem INT0_vect_frame_witness:
  "buffered_clicks (INT0_vect power_on) = 1 \<and>
   buffered_clicks (INT0_vect (power_on\<lparr>sleeping := True\<rparr>)) = 0"
  using INT0_vect_frame [of power_on] INT0_vect_frame [of "power_on\<lparr>sleeping := True\<rparr>"]
  by (simp add: power_on_def)

subsection \<open>Input state machine\<close>

text \<open>
  C8. Polled in \<open>UI_TIMEOUT\<close>, \<open>ui_handler\<close> first writes the port with the LED pin
  cleared, and whatever the click buffer holds it returns with \<open>buffered_clicks = 0\<close>,
  \<open>ui_state = UI_OFF\<close> and the LED pin clear: \<open>UI_TIMEOUT\<close> does not survive the poll.
\<close>

theorem ui_handler_timeout_exits:
  assumes "ui_state s = UI_TIMEOUT"
  shows "ui_state (snd (ui_handler s)) = UI_OFF \<and>
     buffered_clicks (snd (ui_handler s)) = 0 \<and>
     \<not> bit (PORTB (snd (ui_handler s))) LED_PIN \<and>
     take (Suc (length (trace s))) (trace (snd (ui_handler s))) =
       trace s @ [EvPORTB (PORTB s AND NOT (BV LED_PIN))] \<and>
     \<not> bit (PORTB s AND NOT (BV LED_PIN)) LED_PIN"
  using assms
  by (cases "uint (buffered_clicks s) > 1")
    (simp_all add: ui_handler_TIMEOUT_some ui_handler_TIMEOUT_none led_bit_clear)

theorem ui_handler_timeout_exits_witness:
  "ui_state (power_on\<lparr>ui_state := UI_TIMEOUT, buffered_clicks := 3\<rparr>) = UI_TIMEOUT \<and>
   ui_state (snd (ui_handler (power_on\<lparr>ui_state := UI_TIMEOUT, buffered_clicks := 3\<rparr>))) = UI_OFF \<and>
   buffered_clicks (snd (ui_handler (power_on\<lparr>ui_state := UI_TIMEOUT, buffered_clicks := 3\<rparr>))) = 0"
  using ui_handler_timeout_exits [of "power_on\<lparr>ui_state := UI_TIMEOUT, buffered_clicks := 3\<rparr>"]
  by simp

subsection \<open>Invariants of every execution\<close>

text \<open>
  The invariants below hold in every state that a schedule of events reaches from the
  state \<open>init\<close> returns, with interrupt handlers interleaved between the calls of the
  main program.
\<close>

lemma run_events_snoc: "run_events (evs @ [e]) = step (run_events evs) e"
  by (simp add: run_events_def)

text \<open>Three steps of the main program, with no interrupt between them, are one \<open>loop\<close>.\<close>

lemma loop_steps:
  "foldl step (At_run_state_handler, s) [Main, Main, Main] = (At_run_state_handler, loop s)"
  by (simp add: loop_def Let_def split_def)

lemma maybe_sleep_frame:
  "maybe_sleep a s = s\<lparr>inactive_iterations := inactive_iterations (maybe_sleep a s)\<rparr>"
proof (cases a)
  case True
  then show ?thesis by (simp add: maybe_sleep_def)
next
  case False
  then show ?thesis by (simp add: maybe_sleep_inactive)
qed

lemma ui_handler_run_states:
  "current_run_state (snd (ui_handler s)) = current_run_state s \<and>
   desired_run_state (snd (ui_handler s)) \<in>
     {desired_run_state s, RUN_OFF, RUN_SHORT, RUN_MED, RUN_LONG}"
proof (cases "ui_state s")
  case UI_OFF
  then show ?thesis by (simp add: ui_handler_OFF)
next
  case UI_INPUT
  then show ?thesis by (simp add: ui_handler_INPUT)
next
  case UI_TIMEOUT
  show ?thesis
  proof (cases "uint (buffered_clicks s) > 1")
    case True
    then have "min (uint (buffered_clicks s) - 1) 3 \<in> {1, 2, 3}" by auto
    then show ?thesis
      by (auto simp add: ui_handler_TIMEOUT_some [OF UI_TIMEOUT True] run_state_defs)
  next
    case False
    then show ?thesis by (simp add: ui_handler_TIMEOUT_none [OF UI_TIMEOUT False])
  qed
qed

lemma run_state_handler_run_states:
  assumes "current_run_state s \<in> {RUN_OFF, RUN_SHORT, RUN_MED, RUN_LONG}"
    and "desired_run_state s \<in> {RUN_NO_STATE, RUN_OFF, RUN_SHORT, RUN_MED, RUN_LONG}"
  shows "current_run_state (snd (run_state_handler s)) \<in> {RUN_OFF, RUN_SHORT, RUN_MED, RUN_LONG} \<and>
     desired_run_state (snd (run_state_handler s)) = RUN_NO_STATE"
  using assms
  by (auto simp add: run_state_handler_def Let_def fan_on_def fan_off_def write_PORTB_def
      run_state_defs)

lemma TIMER1_desired:
  "current_run_state (TIMER1_OVF_vect s) = current_run_state s \<and>
   desired_run_state (TIMER1_OVF_vect s) \<in> {desired_run_state s, RUN_OFF}"
  by (simp add: TIMER1_OVF_vect_def Let_def)

lemma TIMER0_run_states:
  "current_run_state (TIMER0_OVF_vect s) = current_run_state s \<and>
   desired_run_state (TIMER0_OVF_vect s) = desired_run_state s"
  by (simp add: TIMER0_OVF_vect_def)

lemma step_run_states:
  assumes "current_run_state s \<in> {RUN_OFF, RUN_SHORT, RUN_MED, RUN_LONG}"
    and "desired_run_state s \<in> {RUN_NO_STATE, RUN_OFF, RUN_SHORT, RUN_MED, RUN_LONG}"
  shows "current_run_state (snd (step (pc, s) e)) \<in> {RUN_OFF, RUN_SHORT, RUN_MED, RUN_LONG} \<and>
     desired_run_state (snd (step (pc, s) e)) \<in>
       {RUN_NO_STATE, RUN_OFF, RUN_SHORT, RUN_MED, RUN_LONG}"
proof (cases e)
  case Main
  show ?thesis
  proof (cases pc)
    case At_blink
    with Main assms show ?thesis by (simp add: blink_eq)
  next
    case At_run_state_handler
    with Main run_state_handler_run_states [OF assms] show ?thesis
      by (simp add: split_def Let_def)
  next
    case (At_ui_handler a)
    with Main assms ui_handler_run_states [of s] show ?thesis
      by (auto simp add: split_def Let_def)
  next
    case (At_maybe_sleep a)
    have "current_run_state (maybe_sleep a s) = current_run_state s"
      "desired_run_state (maybe_sleep a s) = desired_run_state s"
      by (subst maybe_sleep_frame, simp)+
    with Main At_maybe_sleep assms show ?thesis by simp
  qed
next
  case Timer0
  with assms show ?thesis by (simp add: TIMER0_run_states)
next
  case Timer1
  with assms TIMER1_desired [of s] show ?thesis by auto
next
  case Button
  with assms show ?thesis by (simp add: INT0_vect_eq)
qed

lemma run_events_run_states:
  "current_run_state (snd (run_events evs)) \<in> {RUN_OFF, RUN_SHORT, RUN_MED, RUN_LONG} \<and>
   desired_run_state (snd (run_events evs)) \<in>
     {RUN_NO_STATE, RUN_OFF, RUN_SHORT, RUN_MED, RUN_LONG}"
proof (induction evs rule: rev_induct)
  case Nil
  show ?case by (simp add: run_events_def init_def sei_def Let_def)
next
  case (snoc e evs)
  obtain pc s where c: "run_events evs = (pc, s)" by (cases "run_events evs")
  with snoc step_run_states [of s pc e] show ?case
    by (simp add: run_events_snoc)
qed

text \<open>
  C7. After \<open>init\<close>, \<open>current_run_state\<close> is always one of Off, Short, Med, Long and never
  the sentinel, and \<open>desired_run_state\<close> is the sentinel or one of those four. The two
  requesters write only such values: the timer 1 handler leaves \<open>desired_run_state\<close> or
  writes Off, \<open>ui_handler\<close> leaves it or writes Off or an on-level. \<open>run_state_handler\<close>
  changes \<open>current_run_state\<close> only by copying a \<open>desired_run_state\<close> that is not the
  sentinel.
\<close>

theorem current_run_state_never_sentinel:
  "current_run_state (snd (run_events evs)) \<in> {RUN_OFF, RUN_SHORT, RUN_MED, RUN_LONG} \<and>
   current_run_state (snd (run_events evs)) \<noteq> RUN_NO_STATE \<and>
   desired_run_state (snd (run_events evs)) \<in>
     {RUN_NO_STATE, RUN_OFF, RUN_SHORT, RUN_MED, RUN_LONG} \<and>
   desired_run_state (TIMER1_OVF_vect s) \<in> {desired_run_state s, RUN_OFF} \<and>
   desired_run_state (snd (ui_handler s)) \<in>
     {desired_run_state s, RUN_OFF, RUN_SHORT, RUN_MED, RUN_LONG} \<and>
   (desired_run_state s = RUN_NO_STATE \<longrightarrow>
      current_run_state (snd (run_state_handler s)) = current_run_state s) \<and>
   (desired_run_state s \<noteq> RUN_NO_STATE \<longrightarrow>
      current_run_state (snd (run_state_handler s)) = desired_run_state s)"
proof -
  have "current_run_state (snd (run_events evs)) \<noteq> RUN_NO_STATE"
    using run_events_run_states [of evs] by (auto simp add: run_state_defs)
  moreover have "desired_run_state s = RUN_NO_STATE \<longrightarrow>
      current_run_state (snd (run_state_handler s)) = current_run_state s"
    by (simp add: run_state_handler_def)
  moreover have "desired_run_state s \<noteq> RUN_NO_STATE \<longrightarrow>
      current_run_state (snd (run_state_handler s)) = desired_run_state s"
    by (simp add: run_state_handler_def Let_def fan_on_def fan_off_def write_PORTB_def)
  ultimately show ?thesis
    using run_events_run_states [of evs] TIMER1_desired [of s] ui_handler_run_states [of s]
    by blast
qed

theorem current_run_state_never_sentinel_witness:
  "current_run_state (snd (run_events [Button, Main, Main, Main, Button, Timer0, Main, Main, Main]))
     \<in> {RUN_OFF, RUN_SHORT, RUN_MED, RUN_LONG} \<and>
   desired_run_state (init power_on) = RUN_NO_STATE \<and>
   current_run_state (snd (run_state_handler (init power_on))) =
     current_run_state (init power_on) \<and>
   desired_run_state (power_on\<lparr>desired_run_state := RUN_SHORT\<rparr>) \<noteq> RUN_NO_STATE \<and>
   current_run_state (snd (run_state_handler (power_on\<lparr>desired_run_state := RUN_SHORT\<rparr>))) =
     RUN_SHORT"
  using current_run_state_never_sentinel
    [of "[Button, Main, Main, Main, Button, Timer0, Main, Main, Main]" "init power_on"]
    current_run_state_never_sentinel [of "[]" "power_on\<lparr>desired_run_state := RUN_SHORT\<rparr>"]
  by (simp add: init_def sei_def Let_def run_state_defs)








subsection \<open>Power policy\<close>

lemma blink_pattern_no_sleep: "EvSleep \<notin> set (blink_pattern p)"
  by (simp add: blink_pattern_def)

lemma blink_no_sleep:
  "sleeping (blink n s) = sleeping s \<and>
   (EvSleep \<in> set (trace (blink n s)) \<longleftrightarrow> EvSleep \<in> set (trace s))"
  by (simp add: blink_eq blink_pattern_no_sleep)

lemma ui_handler_no_sleep:
  "sleeping (snd (ui_handler s)) = sleeping s \<and>
   (EvSleep \<in> set (trace (snd (ui_handler s))) \<longleftrightarrow> EvSleep \<in> set (trace s))"
proof (cases "ui_state s")
  case UI_OFF
  then show ?thesis by (simp add: ui_handler_OFF)
next
  case UI_INPUT
  then show ?thesis by (simp add: ui_handler_INPUT)
next
  case UI_TIMEOUT
  then show ?thesis
    by (cases "uint (buffered_clicks s) > 1")
      (simp_all add: ui_handler_TIMEOUT_some ui_handler_TIMEOUT_none blink_pattern_no_sleep)
qed

lemma run_state_handler_no_sleep:
  "sleeping (snd (run_state_handler s)) = sleeping s \<and>
   (EvSleep \<in> set (trace (snd (run_state_handler s))) \<longleftrightarrow> EvSleep \<in> set (trace s))"
  by (simp add: run_state_handler_def Let_def fan_on_def fan_off_def write_PORTB_def)

lemma step_no_sleep:
  assumes "\<not> sleeping s" and "EvSleep \<notin> set (trace s)"
  shows "\<not> sleeping (snd (step (pc, s) e)) \<and> EvSleep \<notin> set (trace (snd (step (pc, s) e)))"
proof (cases e)
  case Main
  show ?thesis
  proof (cases pc)
    case At_blink
    with Main assms show ?thesis by (simp add: blink_no_sleep)
  next
    case At_run_state_handler
    with Main assms show ?thesis
      by (simp add: split_def Let_def run_state_handler_no_sleep)
  next
    case (At_ui_handler a)
    with Main assms show ?thesis
      by (simp add: split_def Let_def ui_handler_no_sleep)
  next
    case (At_maybe_sleep a)
    with Main assms show ?thesis by (simp add: maybe_sleep_eq)
  qed
next
  case Timer0
  with assms show ?thesis by (simp add: TIMER0_OVF_vect_def)
next
  case Timer1
  with assms show ?thesis by (simp add: TIMER1_OVF_vect_def Let_def)
next
  case Button
  with assms show ?thesis by (simp add: INT0_vect_eq)
qed

lemma run_events_no_sleep:
  "\<not> sleeping (snd (run_events evs)) \<and> EvSleep \<notin> set (trace (snd (run_events evs)))"
proof (induction evs rule: rev_induct)
  case Nil
  show ?case by (simp add: run_events_def init_def sei_def Let_def power_on_def)
next
  case (snoc e evs)
  obtain pc s where c: "run_events evs = (pc, s)" by (cases "run_events evs")
  with snoc step_no_sleep [of s pc e] show ?case
    by (simp add: run_events_snoc)
qed

text \<open>\<open>sleep\<close>, were it called, would show in the trace.\<close>

lemma sleep_would_emit: "EvSleep \<in> set (trace (sleep s))"
  by (simp add: sleep_def sleep_mode_def Let_def)

text \<open>
  C1. The power policy is meant to enter sleep once the inactivity counter exceeds
  \<open>IDLE_ITERATIONS = 255\<close>. The counter is a \<open>uint8_t\<close>, so the comparison
  \<open>inactive_iterations > 255\<close> never holds and the sleep branch is dead:
  \<open>maybe_sleep\<close> only resets the counter (active) or adds one to it modulo 256
  (inactive); any number \<open>n\<close> of consecutive inactive iterations adds \<open>n\<close> modulo 256
  and nothing else; and in no execution after \<open>init\<close> is the \<open>sleep\<close> instruction
  executed or the sleeping flag set.
\<close>

theorem maybe_sleep_never_sleeps:
  "maybe_sleep active s =
     s\<lparr>inactive_iterations := (if active then 0 else inactive_iterations s + 1)\<rparr> \<and>
   (maybe_sleep False ^^ n) s = s\<lparr>inactive_iterations := inactive_iterations s + of_nat n\<rparr> \<and>
   \<not> sleeping (snd (run_events evs)) \<and> EvSleep \<notin> set (trace (snd (run_events evs)))"
proof -
  have "(maybe_sleep False ^^ n) s = s\<lparr>inactive_iterations := inactive_iterations s + of_nat n\<rparr>"
    by (induction n arbitrary: s) (simp_all add: maybe_sleep_inactive add.assoc)
  with maybe_sleep_eq [of active s] run_events_no_sleep [of evs] show ?thesis by simp
qed

end
